theory Spec2Isabelle
  imports Main "HOL-Library.AList" "HOL-Library.Multiset"
begin

section \<open>Spec lists of \<^verbatim>\<open>lib/spack/spack/spec_list.py\<close>\<close>

subsection \<open>YAML values and Python helpers\<close>

text \<open>
  The entries of a spec list are YAML values: a string, a list, or a mapping (a matrix
  record with the keys \<^verbatim>\<open>matrix\<close>, \<^verbatim>\<open>exclude\<close>, \<^verbatim>\<open>sigil\<close>). A Python dict keeps its keys
  in insertion order, so a mapping is an association list.
\<close>

datatype yaml = Str string | List "yaml list" | Dict "(string \<times> yaml) list"

datatype error =
    ValueError
  | KeyError
  | IndexError
  | TypeError
  | AssertionError
  | SpecListError string
  | UndefinedReferenceError string

text \<open>\<^verbatim>\<open>for x in v\<close>: a list yields its elements, a string its characters (each a string
  of length one), a dict its keys.\<close>

fun py_iter :: "yaml \<Rightarrow> yaml list" where
  "py_iter (List xs) = xs"
| "py_iter (Str s) = map (\<lambda>c. Str [c]) s"
| "py_iter (Dict kvs) = map (\<lambda>kv. Str (fst kv)) kvs"

text \<open>\<^verbatim>\<open>if v:\<close> is true of a non-empty string, list or dict.\<close>

fun truthy :: "yaml \<Rightarrow> bool" where
  "truthy (Str s) = (s \<noteq> [])"
| "truthy (List xs) = (xs \<noteq> [])"
| "truthy (Dict kvs) = (kvs \<noteq> [])"

text \<open>\<^verbatim>\<open>d.get(k, default)\<close>\<close>

definition dict_get :: "(string \<times> yaml) list \<Rightarrow> string \<Rightarrow> yaml \<Rightarrow> yaml" where
  "dict_get d k dflt = (case map_of d k of None \<Rightarrow> dflt | Some v \<Rightarrow> v)"

text \<open>\<^verbatim>\<open>s.startswith(p)\<close>\<close>

definition startswith :: "string \<Rightarrow> string \<Rightarrow> bool" where
  "startswith s p = (take (length p) s = p)"

text \<open>\<^verbatim>\<open>' '.join(xs)\<close>\<close>

fun space_join :: "string list \<Rightarrow> string" where
  "space_join [] = []"
| "space_join [x] = x"
| "space_join (x # y # ys) = x @ CHR '' '' # space_join (y # ys)"

subsection \<open>The ordering classifier\<close>

definition spec_ordering_key :: "string \<Rightarrow> nat" where
  "spec_ordering_key s =
     (if startswith s ''^'' then 5
      else if startswith s ''/'' then 4
      else if startswith s ''%'' then 3
      else if list_ex (\<lambda>c. startswith s [c]) ''~-+@'' \<or> CHR ''='' \<in> set s then 2
      else 1)"

subsection \<open>The Spec capability\<close>

text \<open>
  The class \<^verbatim>\<open>Spec\<close> and \<^verbatim>\<open>spack.variant.substitute_abstract_variants\<close> live outside this
  file. They are parameters of the model: \<open>Spec\<close> parses a string,
  \<open>substitute_abstract_variants\<close> gives the test spec as it is after the best-effort
  substitution (whether or not \<^verbatim>\<open>UnknownVariantError\<close> was raised and swallowed),
  \<open>satisfies\<close> is \<^verbatim>\<open>test_spec.satisfies(x)\<close> on the raw exclusion entry \<open>x\<close> (the
  method parses it), and \<open>spec_eq\<close> is \<^verbatim>\<open>==\<close> on parsed specs. Failures inside these
  collaborators are not modelled.
\<close>

record 'sp spec_capability =
  Spec :: "string \<Rightarrow> 'sp"
  substitute_abstract_variants :: "'sp \<Rightarrow> 'sp"
  satisfies :: "'sp \<Rightarrow> yaml \<Rightarrow> bool"
  spec_eq :: "'sp \<Rightarrow> 'sp \<Rightarrow> bool"

subsection \<open>The matrix expander\<close>

text \<open>The spec that a combination is tested with against the exclusions.\<close>

definition test_spec :: "'sp spec_capability \<Rightarrow> string list \<Rightarrow> 'sp" where
  "test_spec cap ordered_combo =
     substitute_abstract_variants cap (Spec cap (space_join ordered_combo))"

text \<open>\<^verbatim>\<open>any(test_spec.satisfies(x) for x in excludes)\<close>\<close>

definition excluded :: "'sp spec_capability \<Rightarrow> yaml \<Rightarrow> string list \<Rightarrow> bool" where
  "excluded cap excludes ordered_combo =
     list_ex (satisfies cap (test_spec cap ordered_combo)) (py_iter excludes)"

text \<open>
  One pass of the loop over \<^verbatim>\<open>itertools.product(*expanded_rows)\<close>: \<open>Inr None\<close> is
  \<^verbatim>\<open>continue\<close>, \<open>Inr (Some c)\<close> is a combination appended to the results.
  In \<^verbatim>\<open>ordered_combo[0] = sigil + ordered_combo[0]\<close> the index is evaluated before the
  concatenation, so an empty combination raises \<^verbatim>\<open>IndexError\<close> whatever the sigil is.
\<close>

definition combo_body ::
  "'sp spec_capability \<Rightarrow> yaml \<Rightarrow> yaml \<Rightarrow> string list \<Rightarrow> error + string list option" where
  "combo_body cap excludes sigil combo =
     (let ordered_combo = sort_key spec_ordering_key combo in
      if excluded cap excludes ordered_combo then Inr None
      else if truthy sigil then
        (case ordered_combo of
           [] \<Rightarrow> Inl IndexError
         | t # ts \<Rightarrow> (case sigil of Str s \<Rightarrow> Inr (Some ((s @ t) # ts)) | _ \<Rightarrow> Inl TypeError))
      else Inr (Some ordered_combo))"

fun combos_loop ::
  "'sp spec_capability \<Rightarrow> yaml \<Rightarrow> yaml \<Rightarrow> string list list \<Rightarrow> string list list
     \<Rightarrow> error + string list list" where
  "combos_loop cap excludes sigil [] results = Inr results"
| "combos_loop cap excludes sigil (combo # combos) results =
     (case combo_body cap excludes sigil combo of
        Inl e \<Rightarrow> Inl e
      | Inr None \<Rightarrow> combos_loop cap excludes sigil combos results
      | Inr (Some c) \<Rightarrow> combos_loop cap excludes sigil combos (results @ [c]))"

text \<open>The weight of a value counts its lists and dicts; it decreases along the recursion.\<close>

fun wt :: "yaml \<Rightarrow> nat" where
  "wt (Str s) = 0"
| "wt (List xs) = Suc (sum_list (map wt xs))"
| "wt (Dict kvs) = Suc (sum_list (map (\<lambda>kv. wt (snd kv)) kvs))"

lemma wt_py_iter: "sum_list (map wt (py_iter v)) < Suc (wt v)"
  by (cases v) (simp_all add: comp_def)

lemma wt_map_of: "map_of d k = Some v \<Longrightarrow> wt v \<le> sum_list (map (\<lambda>kv. wt (snd kv)) d)"
  by (induction d) (auto split: if_splits)

lemma wt_matrix:
  "map_of d k = Some m \<Longrightarrow> sum_list (map wt (py_iter m)) < Suc (sum_list (map (\<lambda>kv. wt (snd kv)) d))"
  using wt_py_iter [of m] wt_map_of [of d k m] by simp

text \<open>
  \<open>expand_flatten\<close> is the nested function \<^verbatim>\<open>_expand_flatten\<close>, \<open>expand_rows\<close> the first
  loop of \<^verbatim>\<open>_expand_matrix_constraints\<close>, and \<open>expand_matrix_tokens\<close> its body up to the
  ordered token lists, which is what a call with \<^verbatim>\<open>specify=False\<close> returns.
\<close>

function (sequential)
  expand_flatten :: "'sp spec_capability \<Rightarrow> yaml list \<Rightarrow> error + string list" and
  expand_rows :: "'sp spec_capability \<Rightarrow> yaml list \<Rightarrow> error + string list list" and
  expand_matrix_tokens ::
    "'sp spec_capability \<Rightarrow> (string \<times> yaml) list \<Rightarrow> error + string list list"
where
  "expand_flatten cap [] = Inr []"
| "expand_flatten cap (List cs # row) =
     (case expand_flatten cap cs of
        Inl e \<Rightarrow> Inl e
      | Inr a \<Rightarrow> (case expand_flatten cap row of Inl e \<Rightarrow> Inl e | Inr b \<Rightarrow> Inr (a @ b)))"
| "expand_flatten cap (Dict d # row) =
     (case expand_matrix_tokens cap d of
        Inl e \<Rightarrow> Inl e
      | Inr rs \<Rightarrow>
         (case expand_flatten cap row of
            Inl e \<Rightarrow> Inl e
          | Inr b \<Rightarrow> Inr (map space_join rs @ b)))"
| "expand_flatten cap (Str s # row) =
     (case expand_flatten cap row of Inl e \<Rightarrow> Inl e | Inr b \<Rightarrow> Inr (s # b))"
| "expand_rows cap [] = Inr []"
| "expand_rows cap (List cs # rows) =
     (case expand_flatten cap cs of
        Inl e \<Rightarrow> Inl e
      | Inr r \<Rightarrow> (case expand_rows cap rows of Inl e \<Rightarrow> Inl e | Inr rest \<Rightarrow> Inr (r # rest)))"
| "expand_rows cap (Dict d # rows) =
     (case expand_flatten cap [Dict d] of
        Inl e \<Rightarrow> Inl e
      | Inr r \<Rightarrow>
         (case expand_rows cap rows of
            Inl e \<Rightarrow> Inl e
          | Inr rest \<Rightarrow> Inr (map (\<lambda>c. [c]) r @ rest)))"
| "expand_rows cap (Str s # rows) =
     (case expand_rows cap rows of Inl e \<Rightarrow> Inl e | Inr rest \<Rightarrow> Inr ([s] # rest))"
| "expand_matrix_tokens cap object =
     (case map_of object ''matrix'' of
        None \<Rightarrow> Inl KeyError
      | Some m \<Rightarrow>
         (case expand_rows cap (py_iter m) of
            Inl e \<Rightarrow> Inl e
          | Inr expanded_rows \<Rightarrow>
              combos_loop cap (dict_get object ''exclude'' (List []))
                (dict_get object ''sigil'' (Str [])) (product_lists expanded_rows) []))"
  by pat_completeness auto

termination
  by (relation "measures
    [\<lambda>x. case x of
        Inl (cap, row) \<Rightarrow> sum_list (map wt row)
      | Inr (Inl (cap, rows)) \<Rightarrow> sum_list (map wt rows)
      | Inr (Inr (cap, d)) \<Rightarrow> Suc (sum_list (map (\<lambda>kv. wt (snd kv)) d)),
     \<lambda>x. case x of Inl _ \<Rightarrow> 1 | Inr (Inl _) \<Rightarrow> 2 | Inr (Inr _) \<Rightarrow> 0,
     \<lambda>x. case x of
        Inl (cap, row) \<Rightarrow> length row
      | Inr (Inl (cap, rows)) \<Rightarrow> length rows
      | Inr (Inr (cap, d)) \<Rightarrow> 0]")
    (auto simp: wt_matrix)

text \<open>
  \<^verbatim>\<open>_expand_matrix_constraints(object, specify)\<close>: with \<^verbatim>\<open>specify=True\<close> every token of
  every combination is parsed, otherwise the token lists are returned as they are.
\<close>

datatype 'sp combo = Specs "'sp list" | Tokens "string list"

definition expand_matrix_constraints ::
  "'sp spec_capability \<Rightarrow> (string \<times> yaml) list \<Rightarrow> bool \<Rightarrow> error + 'sp combo list" where
  "expand_matrix_constraints cap object specify =
     (case expand_matrix_tokens cap object of
        Inl e \<Rightarrow> Inl e
      | Inr results \<Rightarrow>
          Inr (map (\<lambda>ordered_combo.
                 if specify then Specs (map (Spec cap) ordered_combo)
                 else Tokens ordered_combo) results))"

subsection \<open>The container\<close>

text \<open>
  A \<^verbatim>\<open>SpecList\<close> object. The three caches are \<open>None\<close> when stale. The reference dict
  binds names to other \<^verbatim>\<open>SpecList\<close> objects; objects are addresses into a store, since
  reading a referenced container's \<^verbatim>\<open>specs_as_yaml_list\<close> fills that container's cache.
  The constructor copies the raw list and starts with all caches stale; its type check
  holds for every value of type \<open>yaml\<close>.
\<close>

type_synonym addr = nat

record 'sp SpecList =
  name :: string
  reference :: "(string \<times> addr) list"
  yaml_list :: "yaml list"
  expanded_list :: "yaml list option"
  constraints :: "'sp list list option"
  specs :: "'sp list option"

type_synonym 'sp store = "addr \<Rightarrow> 'sp SpecList"

definition init :: "string \<Rightarrow> yaml list \<Rightarrow> (string \<times> addr) list \<Rightarrow> 'sp SpecList" where
  "init nm ylist refs =
     \<lparr>name = nm, reference = refs, yaml_list = ylist,
      expanded_list = None, constraints = None, specs = None\<rparr>"

text \<open>\<^verbatim>\<open>add(spec)\<close>, for a string \<open>spec\<close> (\<^verbatim>\<open>str(spec)\<close> is then \<open>spec\<close> itself).\<close>

definition add :: "'sp SpecList \<Rightarrow> string \<Rightarrow> 'sp SpecList" where
  "add self spec =
     self\<lparr>yaml_list := yaml_list self @ [Str spec],
          expanded_list :=
            (case expanded_list self of None \<Rightarrow> None | Some l \<Rightarrow> Some (l @ [Str spec])),
          constraints := None,
          specs := None\<rparr>"

text \<open>The entries \<^verbatim>\<open>remove\<close> selects, and the message of its error.\<close>

definition remove_candidates :: "'sp spec_capability \<Rightarrow> 'sp SpecList \<Rightarrow> string \<Rightarrow> yaml list" where
  "remove_candidates cap self spec =
     filter (\<lambda>s. case s of
                   Str t \<Rightarrow> \<not> startswith t ''$'' \<and> spec_eq cap (Spec cap t) (Spec cap spec)
                 | _ \<Rightarrow> False)
       (yaml_list self)"

definition remove_msg :: "string \<Rightarrow> string \<Rightarrow> string" where
  "remove_msg spec nm =
     ''Cannot remove '' @ spec @ '' from SpecList '' @ nm @ [CHR 0x0A] @
     ''Either '' @ spec @ '' is not in '' @ nm @ '' or '' @ spec @ '' is '' @
     ''expanded from a matrix and cannot be removed directly.''"

text \<open>
  \<^verbatim>\<open>remove(spec)\<close> returns the error raised, if any, and the container afterwards.
  Both errors are raised before anything is assigned.
\<close>

definition remove ::
  "'sp spec_capability \<Rightarrow> 'sp SpecList \<Rightarrow> string \<Rightarrow> error option \<times> 'sp SpecList" where
  "remove cap self spec =
     (let rm = remove_candidates cap self spec in
      if rm = [] then (Some (SpecListError (remove_msg spec (name self))), self)
      else if length rm \<noteq> 1 then (Some AssertionError, self)
      else (None,
            self\<lparr>yaml_list := remove1 (hd rm) (yaml_list self),
                 expanded_list := None,
                 constraints := None,
                 specs := None\<rparr>))"

definition extend :: "'sp SpecList \<Rightarrow> 'sp SpecList \<Rightarrow> bool \<Rightarrow> 'sp SpecList" where
  "extend self other copy_reference =
     self\<lparr>yaml_list := yaml_list self @ yaml_list other,
          expanded_list := None,
          constraints := None,
          specs := None,
          reference := (if copy_reference then reference other else reference self)\<rparr>"

definition update_reference :: "'sp SpecList \<Rightarrow> (string \<times> addr) list \<Rightarrow> 'sp SpecList" where
  "update_reference self refs =
     self\<lparr>reference := refs, expanded_list := None, constraints := None, specs := None\<rparr>"

subsection \<open>The reference resolver\<close>

definition parse_reference_msg :: "string \<Rightarrow> string \<Rightarrow> string" where
  "parse_reference_msg self_name nm =
     ''SpecList '' @ self_name @ '' refers to '' @ ''named list '' @ nm @ '' '' @
     ''which does not appear in its reference dict''"

definition parse_reference :: "'sp SpecList \<Rightarrow> string \<Rightarrow> error + (string \<times> string)" where
  "parse_reference self nm0 =
     (let nm1 = drop 1 nm0;
          sigil = (if startswith nm1 ''^'' \<or> startswith nm1 ''%'' then take 1 nm1 else []);
          nm = (if startswith nm1 ''^'' \<or> startswith nm1 ''%'' then drop 1 nm1 else nm1)
      in if map_of (reference self) nm = None
         then Inl (UndefinedReferenceError (parse_reference_msg (name self) nm))
         else Inr (nm, sigil))"

text \<open>
  \<^verbatim>\<open>_sigilify(item, sigil)\<close>. On a dict the Python code assigns the key in the object
  itself and returns it; the model returns the updated value and does not follow other
  holders of that object. On a nested list \<^verbatim>\<open>sigil + item\<close> adds a string to a list.
\<close>

fun sigilify :: "yaml \<Rightarrow> string \<Rightarrow> error + yaml" where
  "sigilify (Dict item) sigil =
     Inr (Dict (if sigil \<noteq> [] then AList.update ''sigil'' (Str sigil) item else item))"
| "sigilify (Str item) sigil = Inr (Str (sigil @ item))"
| "sigilify (List item) sigil = Inl TypeError"

text \<open>\<^verbatim>\<open>[_sigilify(spec, sigil) for spec in l]\<close>\<close>

fun sigilify_all :: "yaml list \<Rightarrow> string \<Rightarrow> error + yaml list" where
  "sigilify_all [] sigil = Inr []"
| "sigilify_all (spec # l) sigil =
     (case sigilify spec sigil of
        Inl e \<Rightarrow> Inl e
      | Inr v \<Rightarrow> (case sigilify_all l sigil of Inl e \<Rightarrow> Inl e | Inr vs \<Rightarrow> Inr (v # vs)))"

text \<open>
  \<open>specs_as_yaml_list\<close> is the cached property and \<open>expand_references\<close> the method
  \<^verbatim>\<open>_expand_references\<close> of the container at address \<open>self\<close>; \<open>expand_items\<close> is its loop
  over a list and \<open>expand_dict\<close> its pass over the items of a dict. Each returns the
  store as it is afterwards, also when an error was raised. References between containers
  can be cyclic, so the recursion is bounded by fuel, spent when a stale view is
  recomputed; \<open>None\<close> means the fuel ran out.
\<close>

function (sequential)
  specs_as_yaml_list ::
    "nat \<Rightarrow> 'sp store \<Rightarrow> addr \<Rightarrow> ((error + yaml list) \<times> 'sp store) option" and
  expand_references ::
    "nat \<Rightarrow> 'sp store \<Rightarrow> addr \<Rightarrow> yaml \<Rightarrow> ((error + yaml) \<times> 'sp store) option" and
  expand_items ::
    "nat \<Rightarrow> 'sp store \<Rightarrow> addr \<Rightarrow> yaml list \<Rightarrow> ((error + yaml list) \<times> 'sp store) option" and
  expand_dict ::
    "nat \<Rightarrow> 'sp store \<Rightarrow> addr \<Rightarrow> (string \<times> yaml) list
       \<Rightarrow> ((error + (string \<times> yaml) list) \<times> 'sp store) option"
where
  "specs_as_yaml_list fuel h self =
     (case expanded_list (h self) of
        Some l \<Rightarrow> Some (Inr l, h)
      | None \<Rightarrow>
         (case fuel of
            0 \<Rightarrow> None
          | Suc n \<Rightarrow>
             (case expand_items n h self (yaml_list (h self)) of
                None \<Rightarrow> None
              | Some (Inl e, h1) \<Rightarrow> Some (Inl e, h1)
              | Some (Inr l, h1) \<Rightarrow>
                  Some (Inr l, h1(self := (h1 self)\<lparr>expanded_list := Some l\<rparr>)))))"
| "expand_references fuel h self (List items) =
     (case expand_items fuel h self items of
        None \<Rightarrow> None
      | Some (Inl e, h1) \<Rightarrow> Some (Inl e, h1)
      | Some (Inr ret, h1) \<Rightarrow> Some (Inr (List ret), h1))"
| "expand_references fuel h self (Dict kvs) =
     (case expand_dict fuel h self kvs of
        None \<Rightarrow> None
      | Some (Inl e, h1) \<Rightarrow> Some (Inl e, h1)
      | Some (Inr kvs', h1) \<Rightarrow> Some (Inr (Dict kvs'), h1))"
| "expand_references fuel h self (Str s) = Some (Inl ValueError, h)"
| "expand_items fuel h self [] = Some (Inr [], h)"
| "expand_items fuel h self (Str item # items) =
     (if startswith item ''$'' then
        (case parse_reference (h self) item of
           Inl e \<Rightarrow> Some (Inl e, h)
         | Inr (nm, sigil) \<Rightarrow>
            (case map_of (reference (h self)) nm of
               None \<Rightarrow> Some (Inl KeyError, h)
             | Some b \<Rightarrow>
                (case specs_as_yaml_list fuel h b of
                   None \<Rightarrow> None
                 | Some (Inl e, h1) \<Rightarrow> Some (Inl e, h1)
                 | Some (Inr l, h1) \<Rightarrow>
                    (case sigilify_all l sigil of
                       Inl e \<Rightarrow> Some (Inl e, h1)
                     | Inr referent \<Rightarrow>
                        (case expand_items fuel h1 self items of
                           None \<Rightarrow> None
                         | Some (Inl e, h2) \<Rightarrow> Some (Inl e, h2)
                         | Some (Inr ret, h2) \<Rightarrow> Some (Inr (referent @ ret), h2))))))
      else
        (case expand_items fuel h self items of
           None \<Rightarrow> None
         | Some (Inl e, h1) \<Rightarrow> Some (Inl e, h1)
         | Some (Inr ret, h1) \<Rightarrow> Some (Inr (Str item # ret), h1)))"
| "expand_items fuel h self (item # items) =
     (case expand_references fuel h self item of
        None \<Rightarrow> None
      | Some (Inl e, h1) \<Rightarrow> Some (Inl e, h1)
      | Some (Inr v, h1) \<Rightarrow>
         (case expand_items fuel h1 self items of
            None \<Rightarrow> None
          | Some (Inl e, h2) \<Rightarrow> Some (Inl e, h2)
          | Some (Inr ret, h2) \<Rightarrow> Some (Inr (v # ret), h2)))"
| "expand_dict fuel h self [] = Some (Inr [], h)"
| "expand_dict fuel h self ((k, val) # kvs) =
     (case expand_references fuel h self val of
        None \<Rightarrow> None
      | Some (Inl e, h1) \<Rightarrow> Some (Inl e, h1)
      | Some (Inr v, h1) \<Rightarrow>
         (case expand_dict fuel h1 self kvs of
            None \<Rightarrow> None
          | Some (Inl e, h2) \<Rightarrow> Some (Inl e, h2)
          | Some (Inr ret, h2) \<Rightarrow> Some (Inr ((k, v) # ret), h2)))"
  by pat_completeness auto

termination
  by (relation "measures
    [\<lambda>x. case x of
        Inl (Inl (fuel, h, self)) \<Rightarrow> fuel
      | Inl (Inr (fuel, h, self, y)) \<Rightarrow> fuel
      | Inr (Inl (fuel, h, self, items)) \<Rightarrow> fuel
      | Inr (Inr (fuel, h, self, kvs)) \<Rightarrow> fuel,
     \<lambda>x. case x of
        Inl (Inl (fuel, h, self)) \<Rightarrow> 0
      | Inl (Inr (fuel, h, self, y)) \<Rightarrow> Suc (size y)
      | Inr (Inl (fuel, h, self, items)) \<Rightarrow> Suc (size_list size items)
      | Inr (Inr (fuel, h, self, kvs)) \<Rightarrow> Suc (size_list (size_prod (\<lambda>_. 0) size) kvs)]")
    auto

subsection \<open>Surviving combinations\<close>

text \<open>
  The ordered combinations that pass the exclusion test, in the order of the product: the
  combinations of the loop that do not reach \<^verbatim>\<open>continue\<close>.
\<close>

definition survivors :: "'sp spec_capability \<Rightarrow> yaml \<Rightarrow> string list list \<Rightarrow> string list list" where
  "survivors cap excludes expanded_rows =
     filter (\<lambda>ordered_combo. \<not> excluded cap excludes ordered_combo)
       (map (sort_key spec_ordering_key) (product_lists expanded_rows))"

subsection \<open>An instance of the Spec capability\<close>

text \<open>
  To run the model on concrete inputs: a spec is its text with the blanks removed, the
  substitution changes nothing, a spec satisfies an exclusion entry that parses to the
  same spec, and two specs are equal when their texts are.
\<close>

definition ref_cap :: "string spec_capability" where
  "ref_cap =
     \<lparr>Spec = filter (\<lambda>c. c \<noteq> CHR '' ''),
      substitute_abstract_variants = (\<lambda>t. t),
      satisfies = (\<lambda>t x. case x of Str s \<Rightarrow> filter (\<lambda>c. c \<noteq> CHR '' '') s = t | _ \<Rightarrow> False),
      spec_eq = (\<lambda>a b. a = b)\<rparr>"

text \<open>A container whose three views have been read.\<close>

definition populated_container :: "string SpecList" where
  "populated_container =
     \<lparr>name = ''specs'', reference = [], yaml_list = [Str ''zlib'', Str ''mpich+debug''],
      expanded_list = Some [Str ''zlib'', Str ''mpich+debug''],
      constraints = Some [[''zlib''], [''mpich+debug'']],
      specs = Some [''zlib'', ''mpich+debug'']\<rparr>"


definition cached_store :: "string store" where
  "cached_store =
     (\<lambda>a. if a = 0
          then (init ''A'' [Str ''zlib''] [(''B'', 1)])\<lparr>expanded_list := Some [Str ''zlib'']\<rparr>
          else init ''B'' [Str ''x'', Str ''y''] [])"

section \<open>Properties of the matrix expander\<close>

lemma combo_body_Str:
  "combo_body cap ex (Str s) c =
     (let oc = sort_key spec_ordering_key c in
      if excluded cap ex oc then Inr None
      else if s \<noteq> [] \<and> oc = [] then Inl IndexError
      else Inr (Some (if s = [] then oc else (s @ hd oc) # tl oc)))"
  by (simp add: combo_body_def Let_def split: list.splits)

lemma combos_loop_no_sigil:
  "combos_loop cap ex (Str []) combos acc =
     Inr (acc @ filter (\<lambda>oc. \<not> excluded cap ex oc) (map (sort_key spec_ordering_key) combos))"
  by (induction combos arbitrary: acc) (simp_all add: combo_body_Str Let_def)

lemma combos_loop_sigil:
  "s \<noteq> [] \<Longrightarrow> combos_loop cap ex (Str s) combos acc =
     (let sv = filter (\<lambda>oc. \<not> excluded cap ex oc) (map (sort_key spec_ordering_key) combos) in
      if [] \<in> set sv then Inl IndexError
      else Inr (acc @ map (\<lambda>oc. (s @ hd oc) # tl oc) sv))"
  by (induction combos arbitrary: acc) (auto simp add: combo_body_Str Let_def)

lemma combos_loop_Str:
  "combos_loop cap ex (Str s) combos acc =
     (let sv = filter (\<lambda>oc. \<not> excluded cap ex oc) (map (sort_key spec_ordering_key) combos) in
      if s \<noteq> [] \<and> [] \<in> set sv then Inl IndexError
      else Inr (acc @ (if s = [] then sv else map (\<lambda>oc. (s @ hd oc) # tl oc) sv)))"
proof (cases "s = []")
  case True
  then show ?thesis by (simp add: combos_loop_no_sigil)
next
  case False
  then show ?thesis by (simp add: combos_loop_sigil Let_def)
qed

lemma expand_matrix_tokens_char:
  assumes "map_of object ''matrix'' = Some m"
    and "expand_rows cap (py_iter m) = Inr rows"
    and "dict_get object ''sigil'' (Str []) = Str s"
  shows "expand_matrix_tokens cap object =
     (let sv = survivors cap (dict_get object ''exclude'' (List [])) rows in
      if s \<noteq> [] \<and> [] \<in> set sv then Inl IndexError
      else Inr (if s = [] then sv else map (\<lambda>oc. (s @ hd oc) # tl oc) sv))"
  using assms by (simp add: combos_loop_Str survivors_def Let_def)

lemma sort_key_Nil_iff: "sort_key f xs = [] \<longleftrightarrow> xs = []"
  by (metis length_0_conv length_sort)

lemma Nil_in_product_lists: "[] \<in> set (product_lists xss) \<longleftrightarrow> xss = []"
  by (cases xss) (auto dest: in_set_product_lists_length)

lemma Nil_in_survivors:
  "[] \<in> set (survivors cap ex rows) \<longleftrightarrow> rows = [] \<and> \<not> excluded cap ex []"
proof
  assume "[] \<in> set (survivors cap ex rows)"
  then obtain c where c: "c \<in> set (product_lists rows)" "sort_key spec_ordering_key c = []"
    and ne: "\<not> excluded cap ex []"
    by (auto simp: survivors_def)
  from c(2) have "c = []" by (simp add: sort_key_Nil_iff)
  with c(1) have "rows = []" by (simp add: Nil_in_product_lists)
  with ne show "rows = [] \<and> \<not> excluded cap ex []" by simp
next
  assume "rows = [] \<and> \<not> excluded cap ex []"
  then show "[] \<in> set (survivors cap ex rows)" by (simp add: survivors_def)
qed

lemma length_product_lists_prod:
  "length (product_lists xss) = prod_list (map length xss)"
  by (induction xss) (simp_all add: length_concat comp_def sum_list_triv)

lemma excluded_empty: "py_iter ex = [] \<Longrightarrow> \<not> excluded cap ex oc"
  by (simp add: excluded_def)

text \<open>
  Claim C3, amended. For a matrix record whose rows expand, whose sigil is a string and
  whose exclude list is empty, and which has no sigil or at least one expanded row, the
  expansion returns, and the number of combinations it returns is the product of the
  lengths of the expanded rows, with \<^verbatim>\<open>specify\<close> true or false.
\<close>

theorem combo_count:
  assumes "map_of object ''matrix'' = Some m"
    and "expand_rows cap (py_iter m) = Inr rows"
    and "dict_get object ''sigil'' (Str []) = Str s"
    and "py_iter (dict_get object ''exclude'' (List [])) = []"
    and "s = [] \<or> rows \<noteq> []"
  shows "\<exists>results. expand_matrix_constraints cap object specify = Inr results
            \<and> length results = prod_list (map length rows)"
proof -
  let ?ex = "dict_get object ''exclude'' (List [])"
  have sv: "survivors cap ?ex rows = map (sort_key spec_ordering_key) (product_lists rows)"
    using assms(4) by (simp add: survivors_def excluded_empty)
  have "\<not> (s \<noteq> [] \<and> [] \<in> set (survivors cap ?ex rows))"
    using assms(5) by (auto simp: Nil_in_survivors)
  then have "expand_matrix_tokens cap object =
      Inr (if s = [] then survivors cap ?ex rows
           else map (\<lambda>oc. (s @ hd oc) # tl oc) (survivors cap ?ex rows))"
    using expand_matrix_tokens_char [OF assms(1-3)] by (simp add: Let_def)
  then show ?thesis
    by (simp add: expand_matrix_constraints_def sv length_product_lists_prod)
qed

theorem combo_count_witness:
  "\<exists>results.
     expand_matrix_constraints ref_cap
       [(''matrix'', List [List [Str ''zlib'', Str ''hdf5''], List [Str ''+shared'', Str ''~shared'']]),
        (''sigil'', Str ''^'')] True = Inr results
     \<and> length results = 4"
proof -
  let ?m = "List [List [Str ''zlib'', Str ''hdf5''], List [Str ''+shared'', Str ''~shared'']]"
  let ?obj = "[(''matrix'', ?m), (''sigil'', Str ''^'')]"
  have 1: "map_of ?obj ''matrix'' = Some ?m" by simp
  have 2: "expand_rows ref_cap (py_iter ?m) = Inr [[''zlib'', ''hdf5''], [''+shared'', ''~shared'']]"
    by simp
  have 3: "dict_get ?obj ''sigil'' (Str []) = Str ''^''" by (simp add: dict_get_def)
  have 4: "py_iter (dict_get ?obj ''exclude'' (List [])) = []" by (simp add: dict_get_def)
  have 5: "''^'' = [] \<or> [[''zlib'', ''hdf5''], [''+shared'', ''~shared'']] \<noteq> []" by simp
  from combo_count [OF 1 2 3 4 5, of True] show ?thesis by (simp add: eval_nat_numeral)
qed

text \<open>
  The record \<^verbatim>\<open>{matrix: [], exclude: [], sigil: '^'}\<close> has an empty exclude list and no rows,
  so the product of the row lengths is 1; its expansion raises \<^verbatim>\<open>IndexError\<close> and returns
  no combination.
\<close>

theorem combo_count_counterexample:
  "map_of [(''matrix'', List []), (''exclude'', List []), (''sigil'', Str ''^'')] ''exclude''
     = Some (List [])
   \<and> expand_rows ref_cap (py_iter (List [])) = Inr []
   \<and> prod_list (map length ([] :: string list list)) = 1
   \<and> expand_matrix_constraints ref_cap
        [(''matrix'', List []), (''exclude'', List []), (''sigil'', Str ''^'')] True
      = Inl IndexError"
  by (simp add: expand_matrix_constraints_def dict_get_def combo_body_def excluded_def)

text \<open>
  Claim C5, amended. For a matrix record with a non-empty sigil and at least one expanded
  row, the expansion returns exactly the surviving combinations, in order, each with the
  sigil put in front of its first token and the other tokens unchanged; every surviving
  combination has a first token. Excluded combinations are not among the survivors, so
  none of them is returned, with or without the sigil.
\<close>

theorem sigil_on_first_token:
  assumes "map_of object ''matrix'' = Some m"
    and "expand_rows cap (py_iter m) = Inr rows"
    and "dict_get object ''sigil'' (Str []) = Str s"
    and "s \<noteq> []"
    and "rows \<noteq> []"
  shows "expand_matrix_tokens cap object =
           Inr (map (\<lambda>ordered_combo. (s @ hd ordered_combo) # tl ordered_combo)
                  (survivors cap (dict_get object ''exclude'' (List [])) rows))
         \<and> (\<forall>ordered_combo \<in> set (survivors cap (dict_get object ''exclude'' (List [])) rows).
               ordered_combo \<noteq> [])"
proof -
  let ?sv = "survivors cap (dict_get object ''exclude'' (List [])) rows"
  have ne: "[] \<notin> set ?sv" using assms(5) by (simp add: Nil_in_survivors)
  then have "\<forall>oc\<in>set ?sv. oc \<noteq> []" by metis
  moreover have "expand_matrix_tokens cap object = Inr (map (\<lambda>oc. (s @ hd oc) # tl oc) ?sv)"
    using expand_matrix_tokens_char [OF assms(1-3)] ne assms(4) by (simp add: Let_def)
  ultimately show ?thesis by blast
qed

theorem sigil_on_first_token_witness:
  "expand_matrix_tokens ref_cap
     [(''matrix'', List [List [Str ''zlib''], List [Str ''@1.2'', Str ''@1.3'']]),
      (''exclude'', List [Str ''zlib@1.3'']),
      (''sigil'', Str ''^'')]
   = Inr [[''^zlib'', ''@1.2'']]"
proof -
  let ?m = "List [List [Str ''zlib''], List [Str ''@1.2'', Str ''@1.3'']]"
  let ?obj = "[(''matrix'', ?m), (''exclude'', List [Str ''zlib@1.3'']), (''sigil'', Str ''^'')]"
  have 1: "map_of ?obj ''matrix'' = Some ?m" by simp
  have 2: "expand_rows ref_cap (py_iter ?m) = Inr [[''zlib''], [''@1.2'', ''@1.3'']]"
    by simp
  have 3: "dict_get ?obj ''sigil'' (Str []) = Str ''^''" by (simp add: dict_get_def)
  have 4: "''^'' \<noteq> []" by simp
  have 5: "[[''zlib''], [''@1.2'', ''@1.3'']] \<noteq> []" by simp
  have sv: "survivors ref_cap (dict_get ?obj ''exclude'' (List [])) [[''zlib''], [''@1.2'', ''@1.3'']]
      = [[''zlib'', ''@1.2'']]"
    by (simp add: survivors_def dict_get_def excluded_def test_spec_def ref_cap_def
        spec_ordering_key_def startswith_def)
  from sigil_on_first_token [OF 1 2 3 4 5] show ?thesis by (simp add: sv)
qed

text \<open>
  With no rows the one combination is empty; here it survives the exclusion test, has no
  first token, and the expansion raises \<^verbatim>\<open>IndexError\<close>.
\<close>

theorem sigil_on_first_token_counterexample:
  "survivors ref_cap (List [Str ''zlib'']) [] = [[]]
   \<and> expand_matrix_tokens ref_cap
        [(''matrix'', List []), (''exclude'', List [Str ''zlib'']), (''sigil'', Str ''%'')]
      = Inl IndexError"
  by (simp add: survivors_def dict_get_def combo_body_def excluded_def test_spec_def ref_cap_def)

lemma expand_rows_nonempty:
  "expand_rows cap rs = Inr rows \<Longrightarrow> \<exists>row\<in>set rs. \<forall>d. row \<noteq> Dict d \<Longrightarrow> rows \<noteq> []"
proof (induction rs arbitrary: rows)
  case Nil
  then show ?case by simp
next
  case (Cons r rs)
  show ?case
  proof (cases r)
    case (Str s)
    with Cons.prems(1) show ?thesis by (auto split: sum.splits)
  next
    case (List cs)
    with Cons.prems(1) show ?thesis by (auto split: sum.splits)
  next
    case (Dict d)
    with Cons.prems obtain r1 rest where
      rest: "expand_rows cap rs = Inr rest" and rows: "rows = map (\<lambda>c. [c]) r1 @ rest"
      and ex: "\<exists>row\<in>set rs. \<forall>d. row \<noteq> Dict d"
      by (auto split: sum.splits)
    from Cons.IH [OF rest ex] rows show ?thesis by simp
  qed
qed

text \<open>
  Claim C10, amended. The sigil step reads the first token of the ordered combination.
  When there is at least one expanded row, every ordered combination has a first token
  and the expansion returns; this is so in particular when some row of the matrix list is
  not a mapping. When there is no expanded row and the sigil is not empty, the product is
  the one empty combination, and unless it is excluded the expansion raises
  \<^verbatim>\<open>IndexError\<close>.
\<close>

theorem sigil_index_bounds:
  assumes "map_of object ''matrix'' = Some m"
    and "expand_rows cap (py_iter m) = Inr rows"
    and "dict_get object ''sigil'' (Str []) = Str s"
  shows "(rows \<noteq> [] \<longrightarrow>
            (\<forall>combo \<in> set (product_lists rows). sort_key spec_ordering_key combo \<noteq> [])
            \<and> (\<exists>results. expand_matrix_tokens cap object = Inr results))
       \<and> ((\<exists>row \<in> set (py_iter m). \<forall>d. row \<noteq> Dict d) \<longrightarrow> rows \<noteq> [])
       \<and> (rows = [] \<and> s \<noteq> [] \<and> \<not> excluded cap (dict_get object ''exclude'' (List [])) [] \<longrightarrow>
            product_lists rows = [[]] \<and> expand_matrix_tokens cap object = Inl IndexError)"
proof -
  let ?ex = "dict_get object ''exclude'' (List [])"
  note ch = expand_matrix_tokens_char [OF assms]
  have a: "(\<forall>combo \<in> set (product_lists rows). sort_key spec_ordering_key combo \<noteq> [])
            \<and> (\<exists>results. expand_matrix_tokens cap object = Inr results)" if "rows \<noteq> []"
  proof -
    have "sort_key spec_ordering_key combo \<noteq> []" if "combo \<in> set (product_lists rows)" for combo
      using that \<open>rows \<noteq> []\<close> by (auto simp: sort_key_Nil_iff Nil_in_product_lists)
    moreover have "[] \<notin> set (survivors cap ?ex rows)"
      using \<open>rows \<noteq> []\<close> by (simp add: Nil_in_survivors)
    then have "\<exists>results. expand_matrix_tokens cap object = Inr results"
      using ch by (simp add: Let_def)
    ultimately show ?thesis by blast
  qed
  have b: "rows \<noteq> []" if "\<exists>row \<in> set (py_iter m). \<forall>d. row \<noteq> Dict d"
    using expand_rows_nonempty [OF assms(2) that] .
  have c: "product_lists rows = [[]] \<and> expand_matrix_tokens cap object = Inl IndexError"
    if "rows = [] \<and> s \<noteq> [] \<and> \<not> excluded cap ?ex []"
  proof -
    from that have "[] \<in> set (survivors cap ?ex rows)" by (simp add: Nil_in_survivors)
    with that ch show ?thesis by (simp add: Let_def)
  qed
  from a b c show ?thesis by blast
qed

text \<open>
  A non-empty matrix list whose only row is a sub-matrix with an empty row: the sub-matrix
  has no combination, so there is no expanded row, and with a sigil the expansion raises
  \<^verbatim>\<open>IndexError\<close>.
\<close>

theorem sigil_index_bounds_counterexample:
  "py_iter (List [Dict [(''matrix'', List [List []])]]) \<noteq> []
   \<and> expand_matrix_tokens ref_cap
        [(''matrix'', List [Dict [(''matrix'', List [List []])]]), (''sigil'', Str ''^'')]
      = Inl IndexError"
  by (simp add: dict_get_def combo_body_def excluded_def)

lemma excluded_iff:
  "excluded cap ex oc \<longleftrightarrow> (\<exists>x\<in>set (py_iter ex). satisfies cap (test_spec cap oc) x)"
  by (simp add: excluded_def list_ex_iff)

text \<open>
  Claim C1. A pass of the loop takes \<^verbatim>\<open>continue\<close> exactly when the test spec (the ordered
  tokens joined with blanks, parsed, after the best-effort variant substitution) satisfies
  one of the exclusion entries. So the expansion of a record works on exactly the ordered
  combinations whose test spec satisfies no exclusion entry, in product order. For the
  record \<^verbatim>\<open>{matrix: [["pkg"], ["@1.0","@2.0"]], exclude: ["pkg@2.0"]}\<close>, when
  \<^verbatim>\<open>pkg @2.0\<close> satisfies \<^verbatim>\<open>pkg@2.0\<close> and \<^verbatim>\<open>pkg @1.0\<close> does not, the expansion is the one
  combination \<^verbatim>\<open>pkg\<close>, \<^verbatim>\<open>@1.0\<close>.
\<close>

theorem exclusion_filter:
  "(combo_body cap excludes sigil combo = Inr None \<longleftrightarrow>
      (\<exists>x \<in> set (py_iter excludes).
         satisfies cap
           (substitute_abstract_variants cap
              (Spec cap (space_join (sort_key spec_ordering_key combo)))) x))
   \<and> (\<forall>m rows s.
        map_of object ''matrix'' = Some m \<longrightarrow> expand_rows cap (py_iter m) = Inr rows \<longrightarrow>
        dict_get object ''sigil'' (Str []) = Str s \<longrightarrow>
        (let kept = filter (\<lambda>ordered_combo.
                       \<not> (\<exists>x \<in> set (py_iter (dict_get object ''exclude'' (List []))).
                            satisfies cap (test_spec cap ordered_combo) x))
                     (map (sort_key spec_ordering_key) (product_lists rows))
         in expand_matrix_tokens cap object =
              (if s \<noteq> [] \<and> [] \<in> set kept then Inl IndexError
               else Inr (if s = [] then kept
                         else map (\<lambda>ordered_combo. (s @ hd ordered_combo) # tl ordered_combo)
                                kept))))
   \<and> (satisfies cap (substitute_abstract_variants cap (Spec cap ''pkg @2.0'')) (Str ''pkg@2.0'')
        \<longrightarrow> \<not> satisfies cap (substitute_abstract_variants cap (Spec cap ''pkg @1.0''))
                (Str ''pkg@2.0'')
        \<longrightarrow> expand_matrix_constraints cap
              [(''matrix'', List [List [Str ''pkg''], List [Str ''@1.0'', Str ''@2.0'']]),
               (''exclude'', List [Str ''pkg@2.0''])] True
            = Inr [Specs [Spec cap ''pkg'', Spec cap ''@1.0'']])"
proof -
  have one: "combo_body cap excludes sigil combo = Inr None \<longleftrightarrow>
      (\<exists>x \<in> set (py_iter excludes).
         satisfies cap
           (substitute_abstract_variants cap
              (Spec cap (space_join (sort_key spec_ordering_key combo)))) x)"
    by (auto simp add: combo_body_def Let_def excluded_iff test_spec_def
        split: list.splits yaml.splits)
  have two: "(let kept = filter (\<lambda>ordered_combo.
                       \<not> (\<exists>x \<in> set (py_iter (dict_get object ''exclude'' (List []))).
                            satisfies cap (test_spec cap ordered_combo) x))
                     (map (sort_key spec_ordering_key) (product_lists rows))
         in expand_matrix_tokens cap object =
              (if s \<noteq> [] \<and> [] \<in> set kept then Inl IndexError
               else Inr (if s = [] then kept
                         else map (\<lambda>ordered_combo. (s @ hd ordered_combo) # tl ordered_combo)
                                kept)))"
    if "map_of object ''matrix'' = Some m" "expand_rows cap (py_iter m) = Inr rows"
       "dict_get object ''sigil'' (Str []) = Str s" for m rows s
    using expand_matrix_tokens_char [OF that]
    by (simp add: survivors_def excluded_iff Let_def)
  have k1: "spec_ordering_key ''pkg'' = 1" "spec_ordering_key ''@1.0'' = 2"
    "spec_ordering_key ''@2.0'' = 2"
    by (simp_all add: spec_ordering_key_def startswith_def)
  have three: "expand_matrix_constraints cap
              [(''matrix'', List [List [Str ''pkg''], List [Str ''@1.0'', Str ''@2.0'']]),
               (''exclude'', List [Str ''pkg@2.0''])] True
            = Inr [Specs [Spec cap ''pkg'', Spec cap ''@1.0'']]"
    if "satisfies cap (substitute_abstract_variants cap (Spec cap ''pkg @2.0'')) (Str ''pkg@2.0'')"
      "\<not> satisfies cap (substitute_abstract_variants cap (Spec cap ''pkg @1.0''))
                (Str ''pkg@2.0'')"
    using that
    by (simp add: expand_matrix_constraints_def dict_get_def combo_body_def k1
        excluded_def test_spec_def)
  from one two three show ?thesis by blast
qed

theorem exclusion_filter_witness:
  "expand_matrix_constraints ref_cap
     [(''matrix'', List [List [Str ''pkg''], List [Str ''@1.0'', Str ''@2.0'']]),
      (''exclude'', List [Str ''pkg@2.0''])] True
   = Inr [Specs [''pkg'', ''@1.0'']]
   \<and> combo_body ref_cap (List [Str ''pkg@2.0'']) (Str []) [''pkg'', ''@2.0''] = Inr None
   \<and> combo_body ref_cap (List [Str ''pkg@2.0'']) (Str []) [''pkg'', ''@1.0'']
       = Inr (Some [''pkg'', ''@1.0''])"
proof -
  let ?obj = "[(''matrix'', List [List [Str ''pkg''], List [Str ''@1.0'', Str ''@2.0'']]),
               (''exclude'', List [Str ''pkg@2.0''])]"
  have a: "satisfies ref_cap (substitute_abstract_variants ref_cap (Spec ref_cap ''pkg @2.0''))
             (Str ''pkg@2.0'')"
    by (simp add: ref_cap_def)
  have b: "\<not> satisfies ref_cap (substitute_abstract_variants ref_cap (Spec ref_cap ''pkg @1.0''))
             (Str ''pkg@2.0'')"
    by (simp add: ref_cap_def)
  have c: "\<exists>x \<in> set (py_iter (List [Str ''pkg@2.0''])).
         satisfies ref_cap
           (substitute_abstract_variants ref_cap
              (Spec ref_cap (space_join (sort_key spec_ordering_key [''pkg'', ''@2.0'']))))  x"
    by (simp add: ref_cap_def spec_ordering_key_def startswith_def)
  have d: "combo_body ref_cap (List [Str ''pkg@2.0'']) (Str []) [''pkg'', ''@1.0'']
       = Inr (Some [''pkg'', ''@1.0''])"
    by (simp add: combo_body_def excluded_def test_spec_def ref_cap_def
        spec_ordering_key_def startswith_def)
  from exclusion_filter [of ref_cap "List [Str ''pkg@2.0'']" "Str []" "[''pkg'', ''@2.0'']" ?obj]
    a b c d
  show ?thesis by (simp add: ref_cap_def)
qed

lemma spec_ordering_key_cases:
  "spec_ordering_key s =
     (case s of
        [] \<Rightarrow> 1
      | c # _ \<Rightarrow>
          if c = CHR ''^'' then 5
          else if c = CHR ''/'' then 4
          else if c = CHR ''%'' then 3
          else if c \<in> {CHR ''~'', CHR ''-'', CHR ''+'', CHR ''@''} \<or> CHR ''='' \<in> set s then 2
          else 1)"
  by (cases s) (auto simp add: spec_ordering_key_def startswith_def)

lemma in_survivors:
  "r \<in> set (survivors cap ex rows) \<Longrightarrow>
     \<exists>combo \<in> set (product_lists rows). r = sort_key spec_ordering_key combo"
  by (auto simp: survivors_def)

text \<open>
  Claim C2, amended. Every returned combination is the stable sort by the classifier key
  of a tuple of the product, with the sigil, if there is one, put in front of its first
  token afterwards. The sorted tokens are ascending in the key and tokens with equal keys
  keep the order they have in the tuple; without a sigil the returned combination itself
  is ascending. The key is 5 for a leading \<^verbatim>\<open>^\<close>, 4 for \<^verbatim>\<open>/\<close>, 3 for \<^verbatim>\<open>%\<close>, 2 for a
  leading \<^verbatim>\<open>~\<close>, \<^verbatim>\<open>-\<close>, \<^verbatim>\<open>+\<close> or \<^verbatim>\<open>@\<close> or a contained \<^verbatim>\<open>=\<close>, and 1 otherwise; the tokens
  \<^verbatim>\<open>+shared\<close>, \<^verbatim>\<open>^mpi\<close>, \<^verbatim>\<open>gcc-compiler\<close>, \<^verbatim>\<open>%gcc\<close> have the keys 2, 5, 1, 3 and sort to
  \<^verbatim>\<open>gcc-compiler\<close>, \<^verbatim>\<open>+shared\<close>, \<^verbatim>\<open>%gcc\<close>, \<^verbatim>\<open>^mpi\<close>.
\<close>

theorem combos_sorted_before_sigil:
  assumes "map_of object ''matrix'' = Some m"
    and "expand_rows cap (py_iter m) = Inr rows"
    and "dict_get object ''sigil'' (Str []) = Str s"
    and "expand_matrix_tokens cap object = Inr results"
    and "r \<in> set results"
  shows "(\<exists>combo \<in> set (product_lists rows).
            (let ordered_combo = sort_key spec_ordering_key combo in
               r = (if s = [] then ordered_combo
                    else (s @ hd ordered_combo) # tl ordered_combo)
               \<and> sorted (map spec_ordering_key ordered_combo)
               \<and> (\<forall>k. filter (\<lambda>t. spec_ordering_key t = k) ordered_combo
                       = filter (\<lambda>t. spec_ordering_key t = k) combo)))
       \<and> (s = [] \<longrightarrow> sorted (map spec_ordering_key r))
       \<and> (\<forall>t. spec_ordering_key t =
             (case t of
                [] \<Rightarrow> 1
              | c # _ \<Rightarrow>
                  if c = CHR ''^'' then 5
                  else if c = CHR ''/'' then 4
                  else if c = CHR ''%'' then 3
                  else if c \<in> {CHR ''~'', CHR ''-'', CHR ''+'', CHR ''@''} \<or> CHR ''='' \<in> set t
                  then 2
                  else 1))
       \<and> map spec_ordering_key [''+shared'', ''^mpi'', ''gcc-compiler'', ''%gcc''] = [2, 5, 1, 3]
       \<and> sort_key spec_ordering_key [''+shared'', ''^mpi'', ''gcc-compiler'', ''%gcc'']
           = [''gcc-compiler'', ''+shared'', ''%gcc'', ''^mpi'']"
proof -
  let ?sv = "survivors cap (dict_get object ''exclude'' (List [])) rows"
  from expand_matrix_tokens_char [OF assms(1-3)] assms(4)
  have res: "results = (if s = [] then ?sv else map (\<lambda>oc. (s @ hd oc) # tl oc) ?sv)"
    by (simp add: Let_def split: if_splits)
  with assms(5) obtain oc where oc: "oc \<in> set ?sv"
    and r: "r = (if s = [] then oc else (s @ hd oc) # tl oc)"
    by (auto split: if_splits)
  from in_survivors [OF oc] obtain combo where
    combo: "combo \<in> set (product_lists rows)" "oc = sort_key spec_ordering_key combo"
    by blast
  have a: "\<exists>combo \<in> set (product_lists rows).
            (let ordered_combo = sort_key spec_ordering_key combo in
               r = (if s = [] then ordered_combo
                    else (s @ hd ordered_combo) # tl ordered_combo)
               \<and> sorted (map spec_ordering_key ordered_combo)
               \<and> (\<forall>k. filter (\<lambda>t. spec_ordering_key t = k) ordered_combo
                       = filter (\<lambda>t. spec_ordering_key t = k) combo))"
    using combo r by (intro bexI [of _ combo]) (simp_all add: Let_def sort_key_stable)
  have b: "sorted (map spec_ordering_key r)" if "s = []"
    using that r combo(2) by simp
  have keys: "spec_ordering_key ''+shared'' = 2" "spec_ordering_key ''^mpi'' = 5"
    "spec_ordering_key ''gcc-compiler'' = 1" "spec_ordering_key ''%gcc'' = 3"
    by (simp_all add: spec_ordering_key_def startswith_def)
  have c: "map spec_ordering_key [''+shared'', ''^mpi'', ''gcc-compiler'', ''%gcc''] = [2, 5, 1, 3]"
    by (simp add: keys)
  have d: "sort_key spec_ordering_key [''+shared'', ''^mpi'', ''gcc-compiler'', ''%gcc'']
           = [''gcc-compiler'', ''+shared'', ''%gcc'', ''^mpi'']"
    by (simp add: keys)
  from a b c d spec_ordering_key_cases show ?thesis by blast
qed

theorem combos_sorted_before_sigil_witness:
  "expand_matrix_tokens ref_cap
     [(''matrix'', List [List [Str ''+shared''], List [Str ''^mpi''],
                         List [Str ''gcc-compiler''], List [Str ''%gcc'']])]
     = Inr [[''gcc-compiler'', ''+shared'', ''%gcc'', ''^mpi'']]
   \<and> sorted (map spec_ordering_key [''gcc-compiler'', ''+shared'', ''%gcc'', ''^mpi''])"
proof -
  let ?m = "List [List [Str ''+shared''], List [Str ''^mpi''],
                         List [Str ''gcc-compiler''], List [Str ''%gcc'']]"
  let ?obj = "[(''matrix'', ?m)]"
  let ?r = "[''gcc-compiler'', ''+shared'', ''%gcc'', ''^mpi'']"
  have 1: "map_of ?obj ''matrix'' = Some ?m" by simp
  have 2: "expand_rows ref_cap (py_iter ?m)
             = Inr [[''+shared''], [''^mpi''], [''gcc-compiler''], [''%gcc'']]"
    by simp
  have 3: "dict_get ?obj ''sigil'' (Str []) = Str []" by (simp add: dict_get_def)
  have keys: "spec_ordering_key ''+shared'' = 2" "spec_ordering_key ''^mpi'' = 5"
    "spec_ordering_key ''gcc-compiler'' = 1" "spec_ordering_key ''%gcc'' = 3"
    by (simp_all add: spec_ordering_key_def startswith_def)
  have 4: "expand_matrix_tokens ref_cap ?obj = Inr [?r]"
    by (simp add: dict_get_def combo_body_def excluded_def keys)
  have 5: "?r \<in> set [?r]" by simp
  from combos_sorted_before_sigil [OF 1 2 3 4 5] have "sorted (map spec_ordering_key ?r)"
    by blast
  with 4 show ?thesis by blast
qed

text \<open>
  With the sigil \<^verbatim>\<open>^\<close> the returned combination \<^verbatim>\<open>^zlib\<close>, \<^verbatim>\<open>+shared\<close> has the keys 5, 2: it
  is not ascending.
\<close>

theorem combos_sorted_counterexample:
  "expand_matrix_tokens ref_cap
     [(''matrix'', List [List [Str ''zlib''], List [Str ''+shared'']]), (''sigil'', Str ''^'')]
     = Inr [[''^zlib'', ''+shared'']]
   \<and> map spec_ordering_key [''^zlib'', ''+shared''] = [5, 2]
   \<and> \<not> sorted (map spec_ordering_key [''^zlib'', ''+shared''])"
proof -
  have keys: "spec_ordering_key ''zlib'' = 1" "spec_ordering_key ''+shared'' = 2"
    "spec_ordering_key ''^zlib'' = 5"
    by (simp_all add: spec_ordering_key_def startswith_def)
  show ?thesis
    by (simp add: dict_get_def combo_body_def excluded_def keys)
qed






theorem sigil_index_bounds_witness:
  "(\<exists>results. expand_matrix_tokens ref_cap
       [(''matrix'', List [Str ''zlib'', List [Str ''+shared'']]), (''sigil'', Str ''^'')]
       = Inr results)
   \<and> expand_matrix_tokens ref_cap [(''matrix'', List []), (''sigil'', Str ''^'')]
       = Inl IndexError"
proof -
  let ?m = "List [Str ''zlib'', List [Str ''+shared'']]"
  let ?obj = "[(''matrix'', ?m), (''sigil'', Str ''^'')]"
  let ?emp = "[(''matrix'', List []), (''sigil'', Str ''^'')]"
  have 1: "map_of ?obj ''matrix'' = Some ?m" by simp
  have 2: "expand_rows ref_cap (py_iter ?m) = Inr [[''zlib''], [''+shared'']]" by simp
  have 3: "dict_get ?obj ''sigil'' (Str []) = Str ''^''" by (simp add: dict_get_def)
  have nd: "\<exists>row \<in> set (py_iter ?m). \<forall>d. row \<noteq> Dict d" by simp
  have a: "\<exists>results. expand_matrix_tokens ref_cap ?obj = Inr results"
    using sigil_index_bounds [OF 1 2 3] nd by blast
  have 4: "map_of ?emp ''matrix'' = Some (List [])" by simp
  have 5: "expand_rows ref_cap (py_iter (List [])) = Inr []" by simp
  have 6: "dict_get ?emp ''sigil'' (Str []) = Str ''^''" by (simp add: dict_get_def)
  have 7: "[] = ([] :: string list list) \<and> ''^'' \<noteq> []
            \<and> \<not> excluded ref_cap (dict_get ?emp ''exclude'' (List [])) []"
    by (simp add: dict_get_def excluded_def)
  have b: "expand_matrix_tokens ref_cap ?emp = Inl IndexError"
    using sigil_index_bounds [OF 4 5 6] 7 by blast
  from a b show ?thesis by blast
qed

section \<open>Properties of the container\<close>

lemma filter_single_split:
  "filter P xs = [e] \<Longrightarrow>
     \<exists>pre post. xs = pre @ e # post \<and> (\<forall>x\<in>set pre. \<not> P x) \<and> (\<forall>x\<in>set post. \<not> P x) \<and> P e"
proof (induction xs)
  case Nil
  then show ?case by simp
next
  case (Cons x xs)
  show ?case
  proof (cases "P x")
    case True
    with Cons.prems have "x = e" and "filter P xs = []" by simp_all
    then have "\<forall>y\<in>set xs. \<not> P y" by (simp add: filter_empty_conv)
    with True \<open>x = e\<close> show ?thesis by (intro exI [of _ "[]"] exI [of _ xs]) simp
  next
    case False
    with Cons.prems have "filter P xs = [e]" by simp
    from Cons.IH [OF this] obtain pre post where
      "xs = pre @ e # post" "\<forall>x\<in>set pre. \<not> P x" "\<forall>x\<in>set post. \<not> P x" "P e" by blast
    with False show ?thesis by (intro exI [of _ "x # pre"] exI [of _ post]) simp
  qed
qed

lemma remove1_split: "e \<notin> set pre \<Longrightarrow> remove1 e (pre @ e # post) = pre @ post"
  by (induction pre) auto

text \<open>
  Claim C7. \<^verbatim>\<open>add\<close>, \<^verbatim>\<open>extend\<close>, \<^verbatim>\<open>update_reference\<close> and a \<^verbatim>\<open>remove\<close> that goes through leave
  the constraints and specs caches stale. \<^verbatim>\<open>add\<close> keeps the expanded-list cache as it
  was found: still stale if it was stale, and with the new string appended if it was
  populated. The other three leave the expanded-list cache stale.
\<close>

theorem mutations_invalidate_caches:
  "constraints (add self s) = None \<and> specs (add self s) = None
   \<and> expanded_list (add self s) = map_option (\<lambda>l. l @ [Str s]) (expanded_list self)
   \<and> (fst (remove cap self s) = None \<longrightarrow>
        constraints (snd (remove cap self s)) = None
        \<and> specs (snd (remove cap self s)) = None
        \<and> expanded_list (snd (remove cap self s)) = None)
   \<and> constraints (extend self other cr) = None \<and> specs (extend self other cr) = None
   \<and> expanded_list (extend self other cr) = None
   \<and> constraints (update_reference self refs) = None
   \<and> specs (update_reference self refs) = None
   \<and> expanded_list (update_reference self refs) = None"
  by (simp add: add_def remove_def extend_def update_reference_def Let_def
      split: option.splits)

theorem mutations_invalidate_caches_witness:
  "fst (remove ref_cap populated_container ''zlib'') = None
   \<and> constraints (snd (remove ref_cap populated_container ''zlib'')) = None
   \<and> specs (snd (remove ref_cap populated_container ''zlib'')) = None
   \<and> expanded_list (snd (remove ref_cap populated_container ''zlib'')) = None
   \<and> constraints populated_container \<noteq> None
   \<and> expanded_list (add populated_container ''hdf5'')
       = Some [Str ''zlib'', Str ''mpich+debug'', Str ''hdf5'']"
proof -
  have ok: "fst (remove ref_cap populated_container ''zlib'') = None"
    by (simp add: remove_def remove_candidates_def populated_container_def ref_cap_def
        startswith_def)
  have "expanded_list populated_container = Some [Str ''zlib'', Str ''mpich+debug'']"
    by (simp add: populated_container_def)
  with ok mutations_invalidate_caches [of populated_container "''hdf5''" ref_cap]
    mutations_invalidate_caches [of populated_container "''zlib''" ref_cap]
  show ?thesis by (simp add: populated_container_def)
qed

text \<open>
  Claim C8. \<^verbatim>\<open>remove(spec)\<close> looks only at the raw entries that are strings, do not begin
  with \<^verbatim>\<open>$\<close>, and parse to a spec equal to the parsed \<open>spec\<close>. With no such entry it
  raises the removal error with its message and the container is as before; with more
  than one the assertion fails, the container again as before; with exactly one, that
  entry is taken out of the raw list, the entries before and after it stay in order, and
  the three caches are stale.
\<close>

theorem remove_behaviour:
  fixes cap :: "'sp spec_capability" and self :: "'sp SpecList" and spec :: string
  defines "matches \<equiv> (\<lambda>y. \<exists>t. y = Str t \<and> \<not> startswith t ''$''
                               \<and> spec_eq cap (Spec cap t) (Spec cap spec))"
  shows "(filter matches (yaml_list self) = [] \<longrightarrow>
            remove cap self spec = (Some (SpecListError (remove_msg spec (name self))), self))
       \<and> (1 < length (filter matches (yaml_list self)) \<longrightarrow>
            remove cap self spec = (Some AssertionError, self))
       \<and> (\<forall>e. filter matches (yaml_list self) = [e] \<longrightarrow>
            (\<exists>pre post. yaml_list self = pre @ e # post
               \<and> (\<forall>y\<in>set pre. \<not> matches y) \<and> (\<forall>y\<in>set post. \<not> matches y)
               \<and> remove cap self spec =
                   (None, self\<lparr>yaml_list := pre @ post, expanded_list := None,
                               constraints := None, specs := None\<rparr>)))"
proof -
  have cand: "remove_candidates cap self spec = filter matches (yaml_list self)"
    unfolding remove_candidates_def matches_def
    by (rule filter_cong) (auto split: yaml.splits)
  have one: "remove cap self spec = (Some (SpecListError (remove_msg spec (name self))), self)"
    if "filter matches (yaml_list self) = []"
    using that by (simp add: remove_def cand)
  have two: "remove cap self spec = (Some AssertionError, self)"
    if "1 < length (filter matches (yaml_list self))"
    using that by (auto simp add: remove_def cand Let_def)
  have three: "\<exists>pre post. yaml_list self = pre @ e # post
               \<and> (\<forall>y\<in>set pre. \<not> matches y) \<and> (\<forall>y\<in>set post. \<not> matches y)
               \<and> remove cap self spec =
                   (None, self\<lparr>yaml_list := pre @ post, expanded_list := None,
                               constraints := None, specs := None\<rparr>)"
    if e: "filter matches (yaml_list self) = [e]" for e
  proof -
    from filter_single_split [OF e] obtain pre post where
      pp: "yaml_list self = pre @ e # post" "\<forall>y\<in>set pre. \<not> matches y"
          "\<forall>y\<in>set post. \<not> matches y" "matches e"
      by blast
    then have "e \<notin> set pre" by blast
    then have "remove1 e (yaml_list self) = pre @ post"
      by (simp add: pp(1) remove1_split)
    then have "remove cap self spec =
                 (None, self\<lparr>yaml_list := pre @ post, expanded_list := None,
                             constraints := None, specs := None\<rparr>)"
      by (simp add: remove_def cand e)
    with pp show ?thesis by blast
  qed
  from one two three show ?thesis by blast
qed

theorem remove_behaviour_witness:
  "remove ref_cap populated_container ''hdf5''
     = (Some (SpecListError (remove_msg ''hdf5'' ''specs'')), populated_container)
   \<and> remove ref_cap (extend populated_container populated_container True) ''zlib''
     = (Some AssertionError, extend populated_container populated_container True)
   \<and> remove ref_cap populated_container ''zlib''
     = (None, populated_container\<lparr>yaml_list := [Str ''mpich+debug''], expanded_list := None,
                              constraints := None, specs := None\<rparr>)"
proof -
  let ?m = "\<lambda>spec y. \<exists>t. y = Str t \<and> \<not> startswith t ''$''
              \<and> spec_eq ref_cap (Spec ref_cap t) (Spec ref_cap spec)"
  have none: "filter (?m ''hdf5'') (yaml_list populated_container) = []"
    by (simp add: populated_container_def ref_cap_def startswith_def)
  have many: "1 < length (filter (?m ''zlib'')
                 (yaml_list (extend populated_container populated_container True)))"
    by (simp add: populated_container_def extend_def ref_cap_def startswith_def)
  have one: "filter (?m ''zlib'') (yaml_list populated_container) = [Str ''zlib'']"
    by (simp add: populated_container_def ref_cap_def startswith_def)
  have a: "remove ref_cap populated_container ''hdf5''
     = (Some (SpecListError (remove_msg ''hdf5'' ''specs'')), populated_container)"
    using remove_behaviour [of ref_cap "''hdf5''" populated_container] none
    by (simp add: populated_container_def)
  have b: "remove ref_cap (extend populated_container populated_container True) ''zlib''
     = (Some AssertionError, extend populated_container populated_container True)"
    using remove_behaviour [of ref_cap "''zlib''" "extend populated_container populated_container True"]
      many by blast
  from remove_behaviour [of ref_cap "''zlib''" populated_container] one
  obtain pre post where
    pp: "yaml_list populated_container = pre @ Str ''zlib'' # post"
        "\<forall>y\<in>set pre. \<not> ?m ''zlib'' y"
        "remove ref_cap populated_container ''zlib''
           = (None, populated_container\<lparr>yaml_list := pre @ post, expanded_list := None,
                                    constraints := None, specs := None\<rparr>)"
    by blast
  have "pre = []"
  proof (cases pre)
    case Nil
    then show ?thesis .
  next
    case (Cons x xs)
    with pp(1) have "x = Str ''zlib''" by (simp add: populated_container_def)
    with pp(2) Cons show ?thesis by (simp add: ref_cap_def startswith_def)
  qed
  with pp(1) have "post = [Str ''mpich+debug'']" by (simp add: populated_container_def)
  with pp(3) \<open>pre = []\<close> a b show ?thesis by simp
qed

section \<open>Properties of the reference resolver\<close>

lemma expand_items_append:
  "expand_items fuel h self (xs @ ys) =
     (case expand_items fuel h self xs of
        None \<Rightarrow> None
      | Some (Inl e, h1) \<Rightarrow> Some (Inl e, h1)
      | Some (Inr r1, h1) \<Rightarrow>
         (case expand_items fuel h1 self ys of
            None \<Rightarrow> None
          | Some (Inl e, h2) \<Rightarrow> Some (Inl e, h2)
          | Some (Inr r2, h2) \<Rightarrow> Some (Inr (r1 @ r2), h2)))"
proof (induction xs arbitrary: h)
  case Nil
  then show ?case by (simp split: option.splits sum.splits prod.splits)
next
  case (Cons x xs)
  show ?case
  proof (cases x)
    case (Str s)
    then show ?thesis
      by (simp add: Cons.IH split: option.splits sum.splits prod.splits)
  next
    case (List l)
    then show ?thesis
      by (simp add: Cons.IH split: option.splits sum.splits prod.splits)
  next
    case (Dict d)
    then show ?thesis
      by (simp add: Cons.IH split: option.splits sum.splits prod.splits)
  qed
qed






text \<open>
  Claim C9. When the expanded view of a container is cached, \<^verbatim>\<open>add\<close> of a string that
  begins with \<^verbatim>\<open>$\<close> appends the string as it is to the raw list and to the cached view.
  Reading the view then returns the cached list with the unexpanded \<^verbatim>\<open>$\<close> token at its
  end, whatever the fuel, and changes nothing. After \<^verbatim>\<open>update_reference\<close> has made the
  view stale, the next read expands the raw list again, the \<^verbatim>\<open>$\<close> token last, against
  the reference dict.
\<close>

theorem add_reference_to_cached_view:
  assumes "expanded_list (h self) = Some l"
  shows "(let h' = h(self := add (h self) (CHR ''$'' # nm)) in
           yaml_list (h' self) = yaml_list (h self) @ [Str (CHR ''$'' # nm)]
           \<and> expanded_list (h' self) = Some (l @ [Str (CHR ''$'' # nm)])
           \<and> specs_as_yaml_list fuel h' self = Some (Inr (l @ [Str (CHR ''$'' # nm)]), h')
           \<and> (let h'' = h'(self := update_reference (h' self) (reference (h' self))) in
                specs_as_yaml_list (Suc fuel) h'' self =
                  (case expand_items fuel h'' self (yaml_list (h self)) of
                     None \<Rightarrow> None
                   | Some (Inl e, h1) \<Rightarrow> Some (Inl e, h1)
                   | Some (Inr r1, h1) \<Rightarrow>
                      (case expand_items fuel h1 self [Str (CHR ''$'' # nm)] of
                         None \<Rightarrow> None
                       | Some (Inl e, h2) \<Rightarrow> Some (Inl e, h2)
                       | Some (Inr r2, h2) \<Rightarrow>
                           Some (Inr (r1 @ r2),
                                 h2(self := (h2 self)\<lparr>expanded_list := Some (r1 @ r2)\<rparr>))))))"
  using assms
  by (simp add: Let_def add_def update_reference_def expand_items_append
      split: option.splits sum.splits prod.splits)

theorem add_reference_to_cached_view_witness:
  "specs_as_yaml_list 0 (cached_store(0 := add (cached_store 0) ''$B'')) 0
     = Some (Inr [Str ''zlib'', Str ''$B''], cached_store(0 := add (cached_store 0) ''$B''))
   \<and> map_option fst
        (specs_as_yaml_list 2
           (cached_store(0 := update_reference (add (cached_store 0) ''$B'') [(''B'', 1)])) 0)
       = Some (Inr [Str ''zlib'', Str ''x'', Str ''y''])"
proof -
  have c: "expanded_list (cached_store 0) = Some [Str ''zlib'']"
    by (simp add: cached_store_def init_def)
  have r: "reference (add (cached_store 0) ''$B'') = [(''B'', 1)]"
    by (simp add: cached_store_def init_def add_def)
  have y: "yaml_list (cached_store 0) = [Str ''zlib'']"
    by (simp add: cached_store_def init_def)
  let ?h = "cached_store(0 := update_reference (add (cached_store 0) ''$B'') [(''B'', 1)])"
  have e1: "expand_items 1 ?h 0 [Str ''zlib''] = Some (Inr [Str ''zlib''], ?h)"
    by (simp add: startswith_def)
  have e2: "map_option fst (expand_items 1 ?h 0 [Str ''$B'']) = Some (Inr [Str ''x'', Str ''y''])"
    by (simp add: startswith_def parse_reference_def update_reference_def add_def
        cached_store_def init_def)
  obtain hB where e2': "expand_items 1 ?h 0 [Str ''$B''] = Some (Inr [Str ''x'', Str ''y''], hB)"
    using e2 by (cases "expand_items 1 ?h 0 [Str ''$B'']") auto
  note inst = add_reference_to_cached_view
    [where h = cached_store and self = 0 and l = "[Str ''zlib'']" and nm = "''B''", OF c,
     unfolded Let_def]
  have a: "specs_as_yaml_list 0 (cached_store(0 := add (cached_store 0) ''$B'')) 0
     = Some (Inr [Str ''zlib'', Str ''$B''], cached_store(0 := add (cached_store 0) ''$B''))"
    using inst [of 0] by simp
  have hh: "(cached_store(0 := add (cached_store 0) ''$B''))
              (0 := update_reference ((cached_store(0 := add (cached_store 0) ''$B'')) 0)
                      (reference ((cached_store(0 := add (cached_store 0) ''$B'')) 0))) = ?h"
    by (simp add: r)
  from inst [of 1]
  have "specs_as_yaml_list (Suc 1) ?h 0 =
     (case expand_items 1 ?h 0 (yaml_list (cached_store 0)) of
        None \<Rightarrow> None
      | Some (Inl e, h1) \<Rightarrow> Some (Inl e, h1)
      | Some (Inr r1, h1) \<Rightarrow>
         (case expand_items 1 h1 0 [Str (CHR ''$'' # ''B'')] of
            None \<Rightarrow> None
          | Some (Inl e, h2) \<Rightarrow> Some (Inl e, h2)
          | Some (Inr r2, h2) \<Rightarrow>
              Some (Inr (r1 @ r2), h2(0 := (h2 0)\<lparr>expanded_list := Some (r1 @ r2)\<rparr>))))"
    unfolding hh by blast
  then have "specs_as_yaml_list (Suc 1) ?h 0 =
      Some (Inr ([Str ''zlib''] @ [Str ''x'', Str ''y'']),
            hB(0 := (hB 0)\<lparr>expanded_list := Some ([Str ''zlib''] @ [Str ''x'', Str ''y''])\<rparr>))"
    unfolding y e1 using e2' by simp
  then have b: "map_option fst (specs_as_yaml_list 2 ?h 0)
       = Some (Inr [Str ''zlib'', Str ''x'', Str ''y''])"
    by (simp add: numeral_2_eq_2)
  from a b show ?thesis by blast
qed

end
